theory Spec2Isabelle
  imports Complex_Main "HOL-Library.Sublist"
begin

section \<open>Python values and errors\<close>

text \<open>
  The script is Python. Its integers are unbounded (\<open>int\<close>), and every exception a modelled
  function can raise is a value of \<open>py_error\<close>; a function that can raise returns
  \<open>py_error + 'a\<close>, with \<open>Inl\<close> for the raised exception.
\<close>

datatype py_error =
    IndexError
  | ZeroDivisionError
  | TypeError
  | ValueError
  | OverflowError
  | AssertionError
  | UnboundLocalError
  | OSError
  | RuntimeError string
  | OutsideLatin1

text \<open>\<open>range(b, e)\<close>: the integers from \<open>b\<close> up to, not including, \<open>e\<close>.\<close>

definition py_range :: "int \<Rightarrow> int \<Rightarrow> int list" where
  "py_range b e = map (\<lambda>k. b + int k) [0..<nat (e - b)]"

text \<open>\<open>xs[:k]\<close>: a negative \<open>k\<close> counts from the end, and the slice is clamped.\<close>

definition py_slice_to :: "'a list \<Rightarrow> int \<Rightarrow> 'a list" where
  "py_slice_to xs k = (if k < 0 then take (nat (int (length xs) + k)) xs else take (nat k) xs)"

text \<open>\<open>xs[i]\<close>: a negative \<open>i\<close> counts from the end; out of range raises.\<close>

definition py_index :: "'a list \<Rightarrow> int \<Rightarrow> py_error + 'a" where
  "py_index xs i =
     (if 0 \<le> i \<and> i < int (length xs) then Inr (xs ! nat i)
      else if i < 0 \<and> - int (length xs) \<le> i then Inr (xs ! nat (int (length xs) + i))
      else Inl IndexError)"

section \<open>Shard assignment: \<open>InferenceSamplerV2\<close>\<close>

subsection \<open>The contiguous scheme, \<open>_get_local_indices\<close>\<close>

text \<open>
  \<^verbatim>\<open>shard_sizes = [shard_size + int(r < left) for r in range(world_size)]\<close>
\<close>

definition shard_sizes :: "int \<Rightarrow> int \<Rightarrow> int list" where
  "shard_sizes total_size world_size =
     (let shard_size = total_size div world_size;
          left = total_size mod world_size
      in map (\<lambda>r. shard_size + (if r < left then 1 else 0)) (py_range 0 world_size))"

text \<open>
  The static method. \<open>//\<close> and \<open>%\<close> raise on a zero divisor; for the other divisors
  they are HOL's \<open>div\<close> and \<open>mod\<close> on \<open>int\<close> (floor division, the remainder with the
  sign of the divisor). The returned \<open>range(begin, end)\<close> is given as the list of its
  elements.
\<close>

definition get_local_indices :: "int \<Rightarrow> int \<Rightarrow> int \<Rightarrow> py_error + int list" where
  "get_local_indices total_size world_size rank =
     (if world_size = 0 then Inl ZeroDivisionError
      else
        let sizes = shard_sizes total_size world_size;
            range_begin = sum_list (py_slice_to sizes rank);
            range_end = min (sum_list (py_slice_to sizes (rank + 1))) total_size
        in Inr (py_range range_begin range_end))"

subsection \<open>The modulo scheme, \<open>__init__\<close>\<close>

text \<open>
  The constructor's argument is any Python object; what the constructor distinguishes is a
  float, an int, and everything else. A finite float is given by the rational it denotes, and
  \<open>int(size)\<close> truncates it towards zero; \<open>int\<close> of an infinity or a NaN raises.
\<close>

datatype py_float = Finite rat | Infinite | NaN

datatype size_arg = SizeInt int | SizeFloat py_float | SizeOther

definition int_of_float :: "py_float \<Rightarrow> py_error + int" where
  "int_of_float x =
     (case x of
        Finite q \<Rightarrow> Inr (if 0 \<le> q then \<lfloor>q\<rfloor> else \<lceil>q\<rceil>)
      | Infinite \<Rightarrow> Inl OverflowError
      | NaN \<Rightarrow> Inl ValueError)"

text \<open>The process group: what \<open>dist.get_rank()\<close> and \<open>dist.get_world_size()\<close> return.\<close>

record process_group =
  group_rank :: int
  group_world_size :: int

record sampler =
  sampler_size :: int
  sampler_rank :: int
  sampler_world_size :: int
  local_indices :: "int list"

text \<open>
  \<^verbatim>\<open>self._local_indices = [i for i in range(size) if i%self._world_size==self._rank]\<close>
  The comprehension runs after \<open>assert size > 0\<close>, so \<open>range(size)\<close> is not empty and a
  zero world size raises at the first index.
\<close>

definition modulo_indices :: "int \<Rightarrow> int \<Rightarrow> int \<Rightarrow> py_error + int list" where
  "modulo_indices sz ws rk =
     (if ws = 0 \<and> py_range 0 sz \<noteq> [] then Inl ZeroDivisionError
      else Inr (filter (\<lambda>i. i mod ws = rk) (py_range 0 sz)))"

definition sampler_init :: "process_group \<Rightarrow> size_arg \<Rightarrow> py_error + sampler" where
  "sampler_init pg sz =
     (case (case sz of
              SizeFloat x \<Rightarrow> int_of_float x
            | SizeInt n \<Rightarrow> Inr n
            | SizeOther \<Rightarrow> Inl TypeError) of
        Inl e \<Rightarrow> Inl e
      | Inr n \<Rightarrow>
          if \<not> n > 0 then Inl AssertionError
          else (case modulo_indices n (group_world_size pg) (group_rank pg) of
                  Inl e \<Rightarrow> Inl e
                | Inr idx \<Rightarrow>
                    Inr \<lparr>sampler_size = n, sampler_rank = group_rank pg,
                         sampler_world_size = group_world_size pg,
                         local_indices = idx\<rparr>))"

text \<open>\<open>__iter__\<close> yields the local indices in order; \<open>__len__\<close> is their number.\<close>

definition sampler_iter :: "sampler \<Rightarrow> int list" where
  "sampler_iter s = local_indices s"

definition sampler_len :: "sampler \<Rightarrow> int" where
  "sampler_len s = int (length (local_indices s))"

text \<open>The set of indices a rank owns under each scheme (empty when the call raises).\<close>

definition contiguous_shard :: "int \<Rightarrow> int \<Rightarrow> int \<Rightarrow> int set" where
  "contiguous_shard total_size world_size rk =
     (case get_local_indices total_size world_size rk of
        Inl e \<Rightarrow> {}
      | Inr xs \<Rightarrow> set xs)"

definition modulo_shard :: "int \<Rightarrow> int \<Rightarrow> int \<Rightarrow> int set" where
  "modulo_shard sz ws rk =
     (case sampler_init \<lparr>group_rank = rk, group_world_size = ws\<rparr> (SizeInt sz) of
        Inl e \<Rightarrow> {}
      | Inr s \<Rightarrow> set (sampler_iter s))"

text \<open>The sum of the first \<open>k\<close> shard sizes in closed form, used to state where a shard starts.\<close>

definition shard_begin :: "int \<Rightarrow> int \<Rightarrow> int \<Rightarrow> int" where
  "shard_begin total_size world_size k =
     k * (total_size div world_size) + min k (total_size mod world_size)"

section \<open>Python strings\<close>

text \<open>
  A Python \<open>str\<close> is modelled as a \<open>string\<close> whose characters are the code points 0 to 255
  (Latin-1); text with other code points is outside the model. On this range the string
  methods below are the ones of Python: \<open>lower\<close> maps \<open>A\<close> to \<open>Z\<close> and the accented capitals
  192 to 222 (but not the sign 215) 32 places up and changes nothing else, and the white
  space that \<open>strip\<close> removes is 9 to 13, 28 to 32, 133 and 160.
\<close>

definition lower_char :: "char \<Rightarrow> char" where
  "lower_char c =
     (let n = (of_char c :: nat)
      in if (65 \<le> n \<and> n \<le> 90) \<or> (192 \<le> n \<and> n \<le> 222 \<and> n \<noteq> 215)
         then char_of (n + 32) else c)"

definition py_lower :: "string \<Rightarrow> string" where
  "py_lower s = map lower_char s"

definition py_isspace :: "char \<Rightarrow> bool" where
  "py_isspace c =
     (let n = (of_char c :: nat)
      in (9 \<le> n \<and> n \<le> 13) \<or> (28 \<le> n \<and> n \<le> 32) \<or> n = 133 \<or> n = 160)"

definition py_strip :: "string \<Rightarrow> string" where
  "py_strip s = rev (dropWhile py_isspace (rev (dropWhile py_isspace s)))"

text \<open>
  \<open>s.split(sep)\<close> for a separator of one character: every occurrence of the separator ends
  a piece, so the result is never empty and has one piece more than \<open>s\<close> has separators.
  (The \<open>[]\<close> branch of the \<open>case\<close> is only there for totality.)
\<close>

fun py_split :: "'a \<Rightarrow> 'a list \<Rightarrow> 'a list list" where
  "py_split sep [] = [[]]"
| "py_split sep (c # cs) =
     (if c = sep then [] # py_split sep cs
      else (case py_split sep cs of
              [] \<Rightarrow> [[c]]
            | w # ws \<Rightarrow> (c # w) # ws))"

text \<open>\<open>sep.join(pieces)\<close>\<close>

fun py_join :: "'a list \<Rightarrow> 'a list list \<Rightarrow> 'a list" where
  "py_join sep [] = []"
| "py_join sep [x] = x"
| "py_join sep (x # y # ys) = x @ sep @ py_join sep (y # ys)"

text \<open>\<open>s.replace(old, new)\<close> for an \<open>old\<close> of one character.\<close>

definition py_replace :: "'a \<Rightarrow> 'a list \<Rightarrow> 'a list \<Rightarrow> 'a list" where
  "py_replace old new s = concat (map (\<lambda>c. if c = old then new else [c]) s)"

text \<open>\<open>x in s\<close> on strings: \<open>x\<close> occurs in \<open>s\<close> as a contiguous piece.\<close>

fun py_in :: "'a list \<Rightarrow> 'a list \<Rightarrow> bool" where
  "py_in x [] = (x = [])"
| "py_in x (c # cs) = (prefix x (c # cs) \<or> py_in x cs)"

text \<open>
  \<open>chr(n)\<close> raises outside the range of Unicode; a code point from 256 on is a character
  of Python that the model cannot hold, and is reported as such.
\<close>

definition py_chr :: "int \<Rightarrow> py_error + char" where
  "py_chr n =
     (if n < 0 \<or> 1114112 \<le> n then Inl ValueError
      else if n < 256 then Inr (char_of (nat n))
      else Inl OutsideLatin1)"

definition py_ord :: "char \<Rightarrow> int" where
  "py_ord c = int (of_char c)"

section \<open>Answer matching: \<open>check_answer\<close>\<close>

text \<open>
  (\<open>pred_opt\<close> and \<open>gt_opt\<close> are the source's \<open>pred_option\<close> and \<open>gt_option\<close>.)
  \<open>pred_list[0]\<close> and \<open>gt_list[0]\<close> raise on an empty list and \<open>gt_content[-1]\<close> raises on
  an empty string; \<open>pred_list[1:]\<close> and \<open>gt_content[:-1]\<close> are slices and do not raise.
\<close>

definition check_answer :: "string \<Rightarrow> string \<Rightarrow> py_error + bool" where
  "check_answer predict gt_answer =
     (let predict = py_lower predict;
          gt_answer = py_lower gt_answer;
          pred_list = py_split CHR '' '' (py_lower predict)
      in (case pred_list of
            [] \<Rightarrow> Inl IndexError
          | pred_opt # pred_rest \<Rightarrow>
              (let pred_content = py_join '' '' pred_rest;
                   gt_list = py_split CHR '' '' (py_lower gt_answer)
               in (case gt_list of
                     [] \<Rightarrow> Inl IndexError
                   | gt_opt # gt_rest \<Rightarrow>
                       (let gt_content = py_join '' '' gt_rest
                        in if gt_content = [] then Inl IndexError
                           else
                             (let gt_content =
                                    (if last gt_content = CHR ''.''
                                     then butlast gt_content else gt_content)
                              in if py_in (py_strip (py_replace CHR ''.'' [] pred_opt)) gt_opt
                                 then Inr True
                                 else if py_in (py_strip gt_content) pred_content
                                 then Inr True
                                 else Inr False))))))"

text \<open>
  The two halves of a string as the specification names them: the leading option token is
  what precedes the first space, the remainder is what follows it.
\<close>

definition option_token :: "string \<Rightarrow> string" where
  "option_token s = takeWhile (\<lambda>c. c \<noteq> CHR '' '') s"

definition remainder :: "string \<Rightarrow> string" where
  "remainder s = drop 1 (dropWhile (\<lambda>c. c \<noteq> CHR '' '') s)"

definition strip_trailing_period :: "string \<Rightarrow> string" where
  "strip_trailing_period s = (if s \<noteq> [] \<and> last s = CHR ''.'' then butlast s else s)"

text \<open>The match as the specification words it, on the lower-cased strings.\<close>

definition spec_match :: "string \<Rightarrow> string \<Rightarrow> bool" where
  "spec_match predict gt_answer =
     (let p = py_lower predict; g = py_lower gt_answer
      in sublist (py_strip (filter (\<lambda>c. c \<noteq> CHR ''.'') (option_token p))) (option_token g)
       \<or> sublist (py_strip (strip_trailing_period (remainder g))) (remainder p))"

section \<open>Image loading: \<open>ImageIO\<close>\<close>

text \<open>
  An image is either what \<open>Image.open(path).convert('RGB')\<close> decoded from a file, or one made
  by \<open>Image.new(mode, size, color)\<close>.
\<close>

datatype image =
    Decoded string
  | NewImage string "nat \<times> nat" "nat \<times> nat \<times> nat"

definition empty_image :: image where
  "empty_image = NewImage ''RGB'' (800, 600) (255, 255, 255)"

text \<open>
  What one attempt finds: whether \<open>os.path.isfile\<close> holds, and what opening and converting
  the file gives, an image or the exception it raises.
\<close>

record file_state =
  isfile :: bool
  opened :: "py_error + image"

text \<open>
  The body of the \<open>try\<close>. \<open>image\<close> is bound only by a successful open, after which the
  function returns at once; so when the path is not a file, \<open>return image\<close> reads an unbound
  local and raises.
\<close>

definition load_attempt :: "file_state \<Rightarrow> py_error + image" where
  "load_attempt f =
     (if isfile f then (case opened f of Inl e \<Rightarrow> Inl e | Inr img \<Rightarrow> Inr img)
      else Inl UnboundLocalError)"

record image_io =
  retry_num :: nat

definition image_io_init :: image_io where
  "image_io_init = \<lparr>retry_num = 10\<rparr>"

text \<open>
  The loop of \<open>__call__\<close> over the remaining attempt numbers. The file system may change
  between attempts: \<open>fs i path\<close> is the state of \<open>path\<close> at attempt \<open>i\<close>. The result is what
  the call returns (\<open>None\<close> when it falls off the end of the loop) or raises, with the number
  of tracebacks printed, one for each failed attempt.
\<close>

fun call_loop ::
  "(nat \<Rightarrow> string \<Rightarrow> file_state) \<Rightarrow> string \<Rightarrow> bool \<Rightarrow> bool \<Rightarrow> nat list \<Rightarrow> nat
   \<Rightarrow> (py_error + image option) \<times> nat" where
  "call_loop fs image_url auto_retry raise_error [] printed = (Inr None, printed)"
| "call_loop fs image_url auto_retry raise_error (i # rest) printed =
     (case load_attempt (fs i image_url) of
        Inr img \<Rightarrow> (Inr (Some img), printed)
      | Inl e \<Rightarrow>
          if auto_retry then call_loop fs image_url auto_retry raise_error rest (printed + 1)
          else if raise_error then (Inl (RuntimeError image_url), printed + 1)
          else (Inr (Some empty_image), printed + 1))"

definition image_io_call ::
  "image_io \<Rightarrow> (nat \<Rightarrow> string \<Rightarrow> file_state) \<Rightarrow> string \<Rightarrow> bool \<Rightarrow> bool
   \<Rightarrow> (py_error + image option) \<times> nat" where
  "image_io_call self fs image_url auto_retry raise_error =
     call_loop fs image_url auto_retry raise_error [0..<retry_num self] 0"

section \<open>The benchmark items: \<open>LongVideoBenchDataset\<close>\<close>

text \<open>
  An annotation is one object of the JSON file. The keys that \<open>__getitem__\<close> reads with
  \<open>di[...]\<close> are fields; \<open>correct_choice\<close>, read with \<open>di.get\<close>, may be absent.
\<close>

record annotation =
  video_path :: string
  duration :: rat
  question :: string
  candidates :: "string list"
  correct_choice :: "int option"
  ann_id :: string

record dataset =
  data_path :: string
  insert_text :: bool
  data :: "annotation list"

record item =
  item_video :: string
  item_bound :: "rat \<times> rat"
  item_question :: string
  item_options :: "string list"
  item_answer :: string
  item_id :: string

text \<open>\<open>os.path.join\<close> (POSIX): an absolute component discards what precedes it.\<close>

definition path_join2 :: "string \<Rightarrow> string \<Rightarrow> string" where
  "path_join2 path b =
     (if b \<noteq> [] \<and> hd b = CHR ''/'' then b
      else if path = [] \<or> last path = CHR ''/'' then path @ b
      else path @ ''/'' @ b)"

definition os_path_join :: "string \<Rightarrow> string list \<Rightarrow> string" where
  "os_path_join a ps = foldl path_join2 a ps"

text \<open>
  \<^verbatim>\<open>[chr(ord("A")+i)+'. '+ candidate for i, candidate in enumerate(di["candidates"])]\<close>
\<close>

fun option_lines :: "int \<Rightarrow> string list \<Rightarrow> py_error + string list" where
  "option_lines i [] = Inr []"
| "option_lines i (candidate # rest) =
     (case py_chr (py_ord CHR ''A'' + i) of
        Inl e \<Rightarrow> Inl e
      | Inr letter \<Rightarrow>
          (case option_lines (i + 1) rest of
             Inl e \<Rightarrow> Inl e
           | Inr lines \<Rightarrow> Inr ((letter # ''. '' @ candidate) # lines)))"

text \<open>\<open>di.get(key, default)\<close> on the optional key.\<close>

definition get_correct_choice :: "annotation \<Rightarrow> int \<Rightarrow> int" where
  "get_correct_choice di dflt = (case correct_choice di of None \<Rightarrow> dflt | Some c \<Rightarrow> c)"

text \<open>
  \<open>__getitem__\<close>: the entries of the returned dictionary are evaluated in the order they
  are written, and the first exception ends the call.
\<close>

definition getitem :: "dataset \<Rightarrow> int \<Rightarrow> py_error + item" where
  "getitem self index =
     (case py_index (data self) index of
        Inl e \<Rightarrow> Inl e
      | Inr di \<Rightarrow>
          (case option_lines 0 (candidates di) of
             Inl e \<Rightarrow> Inl e
           | Inr opts \<Rightarrow>
               (case py_chr (py_ord CHR ''A'' + get_correct_choice di (- 1)) of
                  Inl e \<Rightarrow> Inl e
                | Inr letter \<Rightarrow>
                    (case py_index (candidates di) (get_correct_choice di 0) of
                       Inl e \<Rightarrow> Inl e
                     | Inr candidate \<Rightarrow>
                         Inr \<lparr>item_video = os_path_join (data_path self) [''videos'', video_path di],
                              item_bound = (0, duration di),
                              item_question = question di,
                              item_options = opts,
                              item_answer = letter # ''. '' @ candidate,
                              item_id = ann_id di\<rparr>))))"

section \<open>Scoring: \<open>LongVideoBenchTask.evaluate\<close>\<close>

text \<open>One gathered output, the dictionary that the inference loop appends.\<close>

record gathered_output =
  out_question :: string
  pred :: string
  gt :: string
  task_type :: string

text \<open>
  \<open>np.mean\<close> of a list of booleans: the number of \<open>True\<close> over the length, given as the exact
  rational (the rounding to a float is not modelled); on the empty list numpy gives NaN.
\<close>

definition np_mean :: "bool list \<Rightarrow> py_float" where
  "np_mean bs =
     (if bs = [] then NaN
      else Finite (of_nat (length (filter (\<lambda>b. b) bs)) / of_nat (length bs)))"

text \<open>The loop \<^verbatim>\<open>for line in merged_outputs: all_acc.append(check_answer(...))\<close>.\<close>

fun evaluate_loop :: "bool list \<Rightarrow> gathered_output list \<Rightarrow> py_error + bool list" where
  "evaluate_loop all_acc [] = Inr all_acc"
| "evaluate_loop all_acc (line # rest) =
     (case check_answer (pred line) (gt line) of
        Inl e \<Rightarrow> Inl e
      | Inr flag \<Rightarrow> evaluate_loop (all_acc @ [flag]) rest)"

text \<open>\<open>evaluate\<close> returns the metrics dictionary and the list it was given.\<close>

definition evaluate ::
  "gathered_output list \<Rightarrow> py_error + ((string \<rightharpoonup> py_float) \<times> gathered_output list)" where
  "evaluate merged_outputs =
     (case evaluate_loop [] merged_outputs of
        Inl e \<Rightarrow> Inl e
      | Inr all_acc \<Rightarrow>
          Inr ([''Accuracy_overall'' \<mapsto> np_mean all_acc], merged_outputs))"

text \<open>The fraction of the outputs that \<open>check_answer\<close> accepts.\<close>

definition accepted_fraction :: "gathered_output list \<Rightarrow> rat" where
  "accepted_fraction outs =
     of_nat (length (filter (\<lambda>line. check_answer (pred line) (gt line) = Inr True) outs))
       / of_nat (length outs)"

section \<open>Properties of the shard assignment\<close>

subsection \<open>Ranges and prefix sums\<close>

lemma set_py_range: "set (py_range b e) = {b..<e}"
proof -
  have "set (py_range b e) = (\<lambda>k. b + int k) ` {0..<nat (e - b)}"
    by (simp add: py_range_def)
  also have "\<dots> = {b..<e}"
  proof (rule set_eqI)
    fix x
    show "x \<in> (\<lambda>k. b + int k) ` {0..<nat (e - b)} \<longleftrightarrow> x \<in> {b..<e}"
    proof
      assume "x \<in> (\<lambda>k. b + int k) ` {0..<nat (e - b)}"
      then obtain k where "x = b + int k" "k < nat (e - b)" by auto
      then show "x \<in> {b..<e}" by auto
    next
      assume "x \<in> {b..<e}"
      then have "x = b + int (nat (x - b))" "nat (x - b) < nat (e - b)" by auto
      then show "x \<in> (\<lambda>k. b + int k) ` {0..<nat (e - b)}"
        by (metis atLeastLessThan_iff image_eqI le0)
    qed
  qed
  finally show ?thesis .
qed

lemma length_py_range: "length (py_range b e) = nat (e - b)"
  by (simp add: py_range_def)

lemma distinct_py_range: "distinct (py_range b e)"
  by (simp add: py_range_def distinct_map inj_on_def)

lemma nth_py_range: "k < nat (e - b) \<Longrightarrow> py_range b e ! k = b + int k"
  by (simp add: py_range_def)

lemma length_shard_sizes: "length (shard_sizes ts ws) = nat ws"
  by (simp add: shard_sizes_def Let_def length_py_range)

lemma nth_shard_sizes:
  "n < nat ws \<Longrightarrow>
   shard_sizes ts ws ! n = ts div ws + (if int n < ts mod ws then 1 else 0)"
  by (simp add: shard_sizes_def Let_def length_py_range nth_py_range)

lemma sum_take_shard_sizes:
  "0 < ws \<Longrightarrow> n \<le> nat ws \<Longrightarrow> sum_list (take n (shard_sizes ts ws)) = shard_begin ts ws (int n)"
proof (induction n)
  case 0
  then show ?case by (simp add: shard_begin_def)
next
  case (Suc n)
  then have lt: "n < nat ws" by simp
  then have pos: "0 < ws" by simp
  have "take (Suc n) (shard_sizes ts ws) = take n (shard_sizes ts ws) @ [shard_sizes ts ws ! n]"
    using lt by (simp add: take_Suc_conv_app_nth length_shard_sizes)
  then have "sum_list (take (Suc n) (shard_sizes ts ws)) =
             shard_begin ts ws (int n) + (ts div ws + (if int n < ts mod ws then 1 else 0))"
    using Suc lt by (simp add: nth_shard_sizes)
  also have "\<dots> = shard_begin ts ws (int (Suc n))"
    by (simp add: shard_begin_def algebra_simps min_def)
  finally show ?case .
qed

lemma sum_slice_shard_sizes:
  "0 < ws \<Longrightarrow> 0 \<le> k \<Longrightarrow> k \<le> ws \<Longrightarrow>
   sum_list (py_slice_to (shard_sizes ts ws) k) = shard_begin ts ws k"
  using sum_take_shard_sizes [of ws "nat k" ts] by (simp add: py_slice_to_def)

lemma shard_begin_total: "0 < ws \<Longrightarrow> shard_begin ts ws ws = ts"
proof -
  assume pos: "0 < ws"
  then have "ts mod ws < ws" by simp
  then have "min ws (ts mod ws) = ts mod ws" by simp
  then show ?thesis
    by (simp add: shard_begin_def mult.commute)
qed

lemma shard_begin_step:
  "shard_begin ts ws (k + 1) =
   shard_begin ts ws k + (ts div ws + (if k < ts mod ws then 1 else 0))"
  by (simp add: shard_begin_def algebra_simps min_def)

lemma shard_begin_mono:
  assumes "0 \<le> ts" "0 < ws" "j \<le> k"
  shows "shard_begin ts ws j \<le> shard_begin ts ws k"
proof -
  have q: "0 \<le> ts div ws" using assms by (simp add: pos_imp_zdiv_nonneg_iff)
  have "j * (ts div ws) \<le> k * (ts div ws)" using assms q by (simp add: mult_right_mono)
  moreover have "min j (ts mod ws) \<le> min k (ts mod ws)" using assms by simp
  ultimately show ?thesis by (simp add: shard_begin_def)
qed

lemma get_local_indices_eq:
  assumes "0 \<le> ts" "0 < ws" "0 \<le> r" "r < ws"
  shows "get_local_indices ts ws r =
         Inr (py_range (shard_begin ts ws r) (shard_begin ts ws (r + 1)))"
proof -
  have b: "sum_list (py_slice_to (shard_sizes ts ws) r) = shard_begin ts ws r"
    using assms by (simp add: sum_slice_shard_sizes)
  have e: "sum_list (py_slice_to (shard_sizes ts ws) (r + 1)) = shard_begin ts ws (r + 1)"
    using assms by (simp add: sum_slice_shard_sizes)
  have "shard_begin ts ws (r + 1) \<le> shard_begin ts ws ws"
    using assms by (intro shard_begin_mono) simp_all
  then have "shard_begin ts ws (r + 1) \<le> ts"
    using assms by (simp add: shard_begin_total)
  then have "min (shard_begin ts ws (r + 1)) ts = shard_begin ts ws (r + 1)" by simp
  then show ?thesis
    using assms b e by (simp add: get_local_indices_def Let_def)
qed

subsection \<open>The contiguous scheme\<close>

lemma contiguous_shard_eq:
  assumes "0 \<le> ts" "0 < ws" "0 \<le> r" "r < ws"
  shows "contiguous_shard ts ws r = {shard_begin ts ws r ..< shard_begin ts ws (r + 1)}"
  using assms by (simp add: contiguous_shard_def get_local_indices_eq set_py_range)

lemma union_shards_upto:
  assumes "0 \<le> ts" "0 < ws"
  shows "int n \<le> ws \<Longrightarrow>
         (\<Union>r\<in>{0..<int n}. {shard_begin ts ws r ..< shard_begin ts ws (r + 1)}) =
         {0 ..< shard_begin ts ws (int n)}"
proof (induction n)
  case 0
  then show ?case using assms by (simp add: shard_begin_def)
next
  case (Suc n)
  have split: "{0..<int (Suc n)} = insert (int n) {0..<int n}" by auto
  have m1: "shard_begin ts ws 0 \<le> shard_begin ts ws (int n)"
    using assms by (intro shard_begin_mono) simp_all
  have z: "shard_begin ts ws 0 = 0" using assms by (simp add: shard_begin_def)
  have m2: "shard_begin ts ws (int n) \<le> shard_begin ts ws (int n + 1)"
    using assms by (intro shard_begin_mono) simp_all
  have ih: "(\<Union>r\<in>{0..<int n}. {shard_begin ts ws r ..< shard_begin ts ws (r + 1)}) =
        {0 ..< shard_begin ts ws (int n)}"
    using Suc by simp
  have "(\<Union>r\<in>{0..<int (Suc n)}. {shard_begin ts ws r ..< shard_begin ts ws (r + 1)}) =
        {shard_begin ts ws (int n) ..< shard_begin ts ws (int n + 1)} \<union>
        (\<Union>r\<in>{0..<int n}. {shard_begin ts ws r ..< shard_begin ts ws (r + 1)})"
    by (subst split) simp
  also have "\<dots> = {shard_begin ts ws (int n) ..< shard_begin ts ws (int n + 1)} \<union>
        {0 ..< shard_begin ts ws (int n)}"
    by (simp only: ih)
  also have "\<dots> = {0 ..< shard_begin ts ws (int n + 1)}"
    using m1 m2 z by auto
  finally show ?case by (simp add: add.commute)
qed

lemma union_contiguous_shards:
  assumes "0 \<le> ts" "0 < ws"
  shows "(\<Union>r\<in>{0..<ws}. contiguous_shard ts ws r) = {0..<ts}"
proof -
  have "(\<Union>r\<in>{0..<ws}. contiguous_shard ts ws r) =
        (\<Union>r\<in>{0..<ws}. {shard_begin ts ws r ..< shard_begin ts ws (r + 1)})"
    using assms by (simp add: contiguous_shard_eq)
  also have "\<dots> = {0 ..< shard_begin ts ws ws}"
    using union_shards_upto [OF assms, of "nat ws"] assms by simp
  finally show ?thesis using assms by (simp add: shard_begin_total)
qed

lemma disjoint_contiguous_shards:
  assumes "0 \<le> ts" "0 < ws" "0 \<le> r1" "r1 < r2" "r2 < ws"
  shows "contiguous_shard ts ws r1 \<inter> contiguous_shard ts ws r2 = {}"
proof -
  have "shard_begin ts ws (r1 + 1) \<le> shard_begin ts ws r2"
    using assms by (intro shard_begin_mono) simp_all
  then show ?thesis
    using assms by (auto simp: contiguous_shard_eq)
qed

text \<open>
  Claim C1. For a positive total size and a positive world size, the ranges that
  \<open>_get_local_indices\<close> returns for the ranks \<open>0\<close> to \<open>world_size - 1\<close> partition
  \<open>[0, total_size)\<close>: every rank gets a range (without repetition), the ranges are pairwise
  disjoint, their union is \<open>{0, ..., total_size - 1}\<close>, and so every index belongs to exactly
  one rank.
\<close>

theorem contiguous_partition:
  assumes "0 < total_size" "0 < world_size"
  shows "(\<forall>rank\<in>{0..<world_size}. \<exists>xs. get_local_indices total_size world_size rank = Inr xs
            \<and> distinct xs)
       \<and> (\<Union>rank\<in>{0..<world_size}. contiguous_shard total_size world_size rank)
            = {0..<total_size}
       \<and> (\<forall>r1\<in>{0..<world_size}. \<forall>r2\<in>{0..<world_size}. r1 \<noteq> r2 \<longrightarrow>
            contiguous_shard total_size world_size r1
              \<inter> contiguous_shard total_size world_size r2 = {})
       \<and> (\<forall>i\<in>{0..<total_size}. \<exists>!rank. rank \<in> {0..<world_size}
            \<and> i \<in> contiguous_shard total_size world_size rank)"
proof -
  have ts: "0 \<le> total_size" using assms by simp
  have ret: "\<forall>rank\<in>{0..<world_size}. \<exists>xs. get_local_indices total_size world_size rank = Inr xs
            \<and> distinct xs"
    using assms ts by (simp add: get_local_indices_eq distinct_py_range)
  have un: "(\<Union>rank\<in>{0..<world_size}. contiguous_shard total_size world_size rank)
            = {0..<total_size}"
    using union_contiguous_shards [OF ts assms(2)] .
  have dj: "\<forall>r1\<in>{0..<world_size}. \<forall>r2\<in>{0..<world_size}. r1 \<noteq> r2 \<longrightarrow>
            contiguous_shard total_size world_size r1
              \<inter> contiguous_shard total_size world_size r2 = {}"
  proof (intro ballI impI)
    fix r1 r2 assume r: "r1 \<in> {0..<world_size}" "r2 \<in> {0..<world_size}" "r1 \<noteq> r2"
    then consider "r1 < r2" | "r2 < r1" by linarith
    then show "contiguous_shard total_size world_size r1
              \<inter> contiguous_shard total_size world_size r2 = {}"
    proof cases
      case 1
      then show ?thesis using r ts assms disjoint_contiguous_shards [of total_size world_size r1 r2]
        by simp
    next
      case 2
      then show ?thesis using r ts assms disjoint_contiguous_shards [of total_size world_size r2 r1]
        by (simp add: Int_commute)
    qed
  qed
  have ex1: "\<forall>i\<in>{0..<total_size}. \<exists>!rank. rank \<in> {0..<world_size}
            \<and> i \<in> contiguous_shard total_size world_size rank"
  proof
    fix i assume "i \<in> {0..<total_size}"
    then have "i \<in> (\<Union>rank\<in>{0..<world_size}. contiguous_shard total_size world_size rank)"
      using un by simp
    then obtain r where r: "r \<in> {0..<world_size}" "i \<in> contiguous_shard total_size world_size r"
      by blast
    show "\<exists>!rank. rank \<in> {0..<world_size} \<and> i \<in> contiguous_shard total_size world_size rank"
    proof (rule ex1I [of _ r])
      show "r \<in> {0..<world_size} \<and> i \<in> contiguous_shard total_size world_size r"
        using r by simp
    next
      fix r' assume "r' \<in> {0..<world_size} \<and> i \<in> contiguous_shard total_size world_size r'"
      then show "r' = r" using r dj by blast
    qed
  qed
  show ?thesis using ret un dj ex1 by blast
qed

theorem contiguous_partition_witness:
  "(0::int) < 10 \<and> (0::int) < 3
   \<and> (\<exists>xs. get_local_indices 10 3 1 = Inr xs \<and> distinct xs)
   \<and> (\<Union>rank\<in>{0..<3}. contiguous_shard 10 3 rank) = {0..<10}
   \<and> contiguous_shard 10 3 0 \<inter> contiguous_shard 10 3 1 = {}
   \<and> (\<exists>!rank. rank \<in> {0..<3} \<and> 4 \<in> contiguous_shard 10 3 rank)"
proof -
  have h: "(0::int) < 10" "(0::int) < 3" by simp_all
  note p = contiguous_partition [OF h]
  have a: "\<exists>xs. get_local_indices 10 3 1 = Inr xs \<and> distinct xs"
    using p by simp
  have b: "(\<Union>rank\<in>{0..<3}. contiguous_shard 10 3 rank) = {0..<10}"
    using p by blast
  have c: "contiguous_shard 10 3 0 \<inter> contiguous_shard 10 3 1 = {}"
    using p by simp
  have d: "\<exists>!rank. rank \<in> {0..<3} \<and> 4 \<in> contiguous_shard 10 3 rank"
    using p by simp
  show ?thesis using h a b c d by blast
qed

text \<open>
  Claim C2. For a total size that is not negative, a positive world size and a rank in
  \<open>[0, world_size)\<close>, \<open>_get_local_indices\<close> returns a contiguous range, and its length is
  \<open>total_size // world_size + 1\<close> when \<open>rank < total_size % world_size\<close> and
  \<open>total_size // world_size\<close> otherwise.
\<close>

theorem shard_length:
  assumes "0 \<le> total_size" "0 < world_size" "0 \<le> rank" "rank < world_size"
  shows "\<exists>b xs. get_local_indices total_size world_size rank = Inr xs
           \<and> xs = py_range b (b + int (length xs))
           \<and> int (length xs) = total_size div world_size
                + (if rank < total_size mod world_size then 1 else 0)"
proof -
  let ?b = "shard_begin total_size world_size rank"
  let ?n = "total_size div world_size + (if rank < total_size mod world_size then 1 else 0)"
  have q: "0 \<le> total_size div world_size"
    using assms by (simp add: pos_imp_zdiv_nonneg_iff)
  then have n: "0 \<le> ?n" by simp
  have e: "shard_begin total_size world_size (rank + 1) = ?b + ?n"
    by (rule shard_begin_step)
  have r: "get_local_indices total_size world_size rank = Inr (py_range ?b (?b + ?n))"
    using assms e by (simp add: get_local_indices_eq)
  have l: "int (length (py_range ?b (?b + ?n))) = ?n"
    using n by (simp add: length_py_range)
  show ?thesis using r l by (metis (no_types, lifting))
qed

theorem shard_length_witness:
  "(0::int) \<le> 10 \<and> (0::int) < 3 \<and> (0::int) \<le> 0 \<and> (0::int) < 3
   \<and> (\<exists>b xs. get_local_indices 10 3 0 = Inr xs
         \<and> xs = py_range b (b + int (length xs)) \<and> int (length xs) = 4)"
proof -
  have h: "(0::int) \<le> 10" "(0::int) < 3" "(0::int) \<le> 0" "(0::int) < 3" by simp_all
  show ?thesis using shard_length [OF h] by simp
qed

subsection \<open>The modulo scheme\<close>

lemma sampler_init_int:
  assumes "0 < sz" "ws \<noteq> 0"
  shows "sampler_init \<lparr>group_rank = rk, group_world_size = ws\<rparr> (SizeInt sz) =
         Inr \<lparr>sampler_size = sz, sampler_rank = rk, sampler_world_size = ws,
              local_indices = filter (\<lambda>i. i mod ws = rk) (py_range 0 sz)\<rparr>"
  using assms by (simp add: sampler_init_def modulo_indices_def)

lemma modulo_shard_eq:
  assumes "0 < sz" "ws \<noteq> 0"
  shows "modulo_shard sz ws rk = {i. 0 \<le> i \<and> i < sz \<and> i mod ws = rk}"
  using assms by (auto simp: modulo_shard_def sampler_init_int sampler_iter_def set_py_range)

text \<open>
  Claim C3. For a positive size and a positive world size, the modulo assignment of
  \<open>__init__\<close> gives rank \<open>r\<close> exactly the indices \<open>i\<close> of \<open>[0, size)\<close> with
  \<open>i % world_size = r\<close>, and the lists of the ranks \<open>0\<close> to \<open>world_size - 1\<close> are pairwise
  disjoint with union \<open>{0, ..., size - 1}\<close>: every index is covered exactly once.
\<close>

theorem modulo_partition:
  assumes "0 < sz" "0 < ws"
  shows "(\<forall>rk\<in>{0..<ws}. \<exists>s. sampler_init \<lparr>group_rank = rk, group_world_size = ws\<rparr> (SizeInt sz)
              = Inr s
            \<and> distinct (sampler_iter s)
            \<and> set (sampler_iter s) = {i. 0 \<le> i \<and> i < sz \<and> i mod ws = rk})
       \<and> (\<Union>rk\<in>{0..<ws}. modulo_shard sz ws rk) = {0..<sz}
       \<and> (\<forall>r1\<in>{0..<ws}. \<forall>r2\<in>{0..<ws}. r1 \<noteq> r2 \<longrightarrow>
            modulo_shard sz ws r1 \<inter> modulo_shard sz ws r2 = {})
       \<and> (\<forall>i\<in>{0..<sz}. \<exists>!rk. rk \<in> {0..<ws} \<and> i \<in> modulo_shard sz ws rk)"
proof -
  have nz: "ws \<noteq> 0" using assms by simp
  have ret: "\<forall>rk\<in>{0..<ws}. \<exists>s. sampler_init \<lparr>group_rank = rk, group_world_size = ws\<rparr> (SizeInt sz)
              = Inr s
            \<and> distinct (sampler_iter s)
            \<and> set (sampler_iter s) = {i. 0 \<le> i \<and> i < sz \<and> i mod ws = rk}"
    using assms nz
    by (auto simp: sampler_init_int sampler_iter_def distinct_py_range set_py_range)
  have un: "(\<Union>rk\<in>{0..<ws}. modulo_shard sz ws rk) = {0..<sz}"
  proof (rule set_eqI)
    fix i
    have "0 \<le> i mod ws" "i mod ws < ws" using assms by simp_all
    then show "i \<in> (\<Union>rk\<in>{0..<ws}. modulo_shard sz ws rk) \<longleftrightarrow> i \<in> {0..<sz}"
      using assms nz by (auto simp: modulo_shard_eq)
  qed
  have dj: "\<forall>r1\<in>{0..<ws}. \<forall>r2\<in>{0..<ws}. r1 \<noteq> r2 \<longrightarrow>
            modulo_shard sz ws r1 \<inter> modulo_shard sz ws r2 = {}"
    using assms nz by (auto simp: modulo_shard_eq)
  have ex1: "\<forall>i\<in>{0..<sz}. \<exists>!rk. rk \<in> {0..<ws} \<and> i \<in> modulo_shard sz ws rk"
  proof
    fix i assume i: "i \<in> {0..<sz}"
    have m: "0 \<le> i mod ws" "i mod ws < ws" using assms by simp_all
    show "\<exists>!rk. rk \<in> {0..<ws} \<and> i \<in> modulo_shard sz ws rk"
    proof (rule ex1I [of _ "i mod ws"])
      show "i mod ws \<in> {0..<ws} \<and> i \<in> modulo_shard sz ws (i mod ws)"
        using i m assms nz by (simp add: modulo_shard_eq)
    next
      fix rk assume "rk \<in> {0..<ws} \<and> i \<in> modulo_shard sz ws rk"
      then show "rk = i mod ws" using assms nz by (simp add: modulo_shard_eq)
    qed
  qed
  show ?thesis using ret un dj ex1 by blast
qed

theorem modulo_partition_witness:
  "(0::int) < 10 \<and> (0::int) < 3
   \<and> (\<exists>s. sampler_init \<lparr>group_rank = 1, group_world_size = 3\<rparr> (SizeInt 10) = Inr s
         \<and> distinct (sampler_iter s)
         \<and> set (sampler_iter s) = {i. 0 \<le> i \<and> i < 10 \<and> i mod 3 = 1})
   \<and> (\<Union>rk\<in>{0..<3}. modulo_shard 10 3 rk) = {0..<10}
   \<and> modulo_shard 10 3 0 \<inter> modulo_shard 10 3 1 = {}
   \<and> (\<exists>!rk. rk \<in> {0..<3} \<and> 4 \<in> modulo_shard 10 3 rk)"
proof -
  have h: "(0::int) < 10" "(0::int) < 3" by simp_all
  note p = modulo_partition [OF h]
  have a: "\<exists>s. sampler_init \<lparr>group_rank = 1, group_world_size = 3\<rparr> (SizeInt 10) = Inr s
         \<and> distinct (sampler_iter s)
         \<and> set (sampler_iter s) = {i. 0 \<le> i \<and> i < 10 \<and> i mod 3 = 1}"
    using p by simp
  have b: "(\<Union>rk\<in>{0..<3}. modulo_shard 10 3 rk) = {0..<10}"
    using p by blast
  have c: "modulo_shard 10 3 0 \<inter> modulo_shard 10 3 1 = {}"
    using p by simp
  have d: "\<exists>!rk. rk \<in> {0..<3} \<and> 4 \<in> modulo_shard 10 3 rk"
    using p by simp
  show ?thesis using h a b c d by blast
qed

text \<open>
  Claim C4. The two schemes differ: there are a total size, a world size and a rank for
  which the modulo assignment and the contiguous assignment give different sets of indices
  (with four indices and two ranks, rank \<open>0\<close> owns \<open>0, 2\<close> under one and \<open>0, 1\<close> under the
  other).
\<close>

theorem variants_differ:
  "\<exists>total_size world_size rank.
      0 < total_size \<and> 0 < world_size \<and> 0 \<le> rank \<and> rank < world_size
    \<and> modulo_shard total_size world_size rank
        \<noteq> contiguous_shard total_size world_size rank"
proof -
  have m: "modulo_shard 4 2 0 = {0, 2}" by code_simp
  have c: "contiguous_shard 4 2 0 = {0, 1}" by code_simp
  have "(2::int) \<in> modulo_shard 4 2 0" by (simp add: m)
  moreover have "(2::int) \<notin> contiguous_shard 4 2 0" by (simp add: c)
  ultimately have "modulo_shard 4 2 0 \<noteq> contiguous_shard 4 2 0" by metis
  then show ?thesis
    by (intro exI [of _ 4] exI [of _ 2] exI [of _ 0]) simp
qed

end
